theory Spec2Isabelle
  imports Main "HOL-Library.Word" "HOL-Library.Multiset" "HOL-Library.Product_Lexorder"
begin

section \<open>Data model of the messenger server (server/index.js, server/database.js)\<close>

text \<open>
  User ids are the INTEGER PRIMARY KEY values of the users table and the numbers the
  clients put into their payloads; socket ids and room ids are strings. Message content
  is a JavaScript string, a sequence of UTF-16 code units. Instants stand for the values
  of CURRENT_TIMESTAMP and of \<^verbatim>\<open>new Date()\<close>; only their order matters.

  Every id and every row counter reaches the handlers as a JavaScript number, a binary64
  value. The model takes these numbers as integers. That is exact on the safe integers,
  the integers of magnitude at most \<open>2^53 - 1\<close>: they are the numbers for which an
  integer and its binary64 value agree and whose string is their decimal numeral. Beyond
  them the handlers see rounded values and other digit strings, which the model does
  not describe; every statement below that depends on the exact value or on the digits
  of a number assumes that it is a safe integer.
\<close>

type_synonym user_id = int
type_synonym conn_id = string
type_synonym room_id = string
type_synonym js_string = "16 word list"
type_synonym instant = nat

text \<open>\<^verbatim>\<open>Number.isSafeInteger\<close> on an integer.\<close>

definition safe_integer :: "int \<Rightarrow> bool" where
  "safe_integer i \<longleftrightarrow> - (2 ^ 53 - 1) \<le> i \<and> i \<le> 2 ^ 53 - 1"

text \<open>Row of \<^verbatim>\<open>SELECT id, name, phone, created_at FROM users\<close>.\<close>

record user_row =
  u_id :: user_id
  u_name :: string
  u_phone :: string
  u_created_at :: instant

text \<open>Row of the messages table.\<close>

record message_row =
  m_id :: int
  m_sender_id :: user_id
  m_receiver_id :: user_id
  m_content :: js_string
  m_timestamp :: instant

text \<open>The message object sent to clients in \<^verbatim>\<open>message_history\<close> and \<^verbatim>\<open>new_message\<close>.\<close>

record message =
  w_id :: int
  w_senderId :: user_id
  w_receiverId :: user_id
  w_content :: js_string
  w_timestamp :: instant
  w_senderName :: string

text \<open>The properties the authenticate handler stores on a socket.\<close>

record identity =
  userId :: user_id
  userName :: string
  userPhone :: string

text \<open>A value of the \<^verbatim>\<open>onlineUsers\<close> map.\<close>

record online_entry =
  o_userId :: user_id
  o_name :: string
  o_phone :: string
  o_socketId :: conn_id
  o_connectedAt :: instant

text \<open>The payload of \<^verbatim>\<open>send_message\<close>.\<close>

record message_data =
  senderId :: user_id
  receiverId :: user_id
  content :: js_string

text \<open>
  The server state: the three tables, the AUTOINCREMENT counter of the messages table,
  the connected sockets (in connection order) with the identity bound to each, the room
  memberships kept by the socket layer, the \<^verbatim>\<open>onlineUsers\<close> map, and the calls of
  the authenticate handler that are suspended at an \<^verbatim>\<open>await\<close>, each with its socket id
  and token. A JavaScript Map is an association list: it iterates in insertion order.
\<close>

record server_state =
  users :: "user_row list"
  friends :: "(user_id \<times> user_id) list"
  messages :: "message_row list"
  messages_seq :: int
  sockets :: "(conn_id \<times> identity option) list"
  rooms :: "(room_id \<times> conn_id) list"
  onlineUsers :: "(conn_id \<times> online_entry) list"
  pending :: "(conn_id \<times> string) list"

text \<open>
  The texts of the \<^verbatim>\<open>auth_error\<close> and \<^verbatim>\<open>error\<close> events, one constructor per literal
  of the source: token not provided, user does not exist, token invalid; not
  authenticated, message must not be empty, no permission to send the message, error
  while saving the message.
\<close>

datatype auth_failure = Token_missing | User_missing | Token_invalid

datatype error_message = Not_authenticated | Empty_content | Forbidden | Save_failed

datatype out_event =
    Auth_error auth_failure
  | Auth_success user_row
  | Users_online "online_entry list"
  | Error error_message
  | Message_history "message list"
  | New_message message
  | User_typing user_id string bool
  | Authenticate_echo string

type_synonym emission = "conn_id \<times> out_event"

datatype in_event =
    Authenticate "string option"
  | Join_conversation user_id user_id
  | Send_message message_data
  | Typing user_id bool
  | Disconnect

text \<open>
  A step of the server: a new connection with the token of its handshake, an event
  arriving on a socket, or a suspended authenticate call resuming.
\<close>

datatype step =
    Connection conn_id "string option"
  | Event conn_id in_event
  | Resume conn_id string

text \<open>
  What a handler takes from outside the process: the verdict of \<^verbatim>\<open>jwt.verify\<close> on a
  token (the id in the decoded payload, or a rejection), whether the database call of
  the handler reports an error, and the two clocks.
\<close>

record env =
  verifyToken :: "string \<Rightarrow> user_id option"
  db_err :: bool
  db_now :: instant
  js_now :: instant

section \<open>JavaScript helpers\<close>

subsection \<open>Map.set, Map.delete, Map.values\<close>

fun Map_set :: "('k \<times> 'v) list \<Rightarrow> 'k \<Rightarrow> 'v \<Rightarrow> ('k \<times> 'v) list" where
  "Map_set [] k v = [(k, v)]"
| "Map_set ((k', v') # kvs) k v =
     (if k' = k then (k, v) # kvs else (k', v') # Map_set kvs k v)"

definition Map_delete :: "('k \<times> 'v) list \<Rightarrow> 'k \<Rightarrow> ('k \<times> 'v) list" where
  "Map_delete kvs k = filter (\<lambda>kv. fst kv \<noteq> k) kvs"

definition Map_values :: "('k \<times> 'v) list \<Rightarrow> 'v list" where
  "Map_values kvs = map snd kvs"

subsection \<open>String.prototype.trim\<close>

text \<open>The white space and line terminator code units of ECMAScript.\<close>

definition is_white_space :: "16 word \<Rightarrow> bool" where
  "is_white_space u \<longleftrightarrow>
     u \<in> {0x0009, 0x000A, 0x000B, 0x000C, 0x000D, 0x0020, 0x00A0, 0x1680,
          0x2000, 0x2001, 0x2002, 0x2003, 0x2004, 0x2005, 0x2006, 0x2007,
          0x2008, 0x2009, 0x200A, 0x2028, 0x2029, 0x202F, 0x205F, 0x3000, 0xFEFF}"

definition trim :: "js_string \<Rightarrow> js_string" where
  "trim s = rev (dropWhile is_white_space (rev (dropWhile is_white_space s)))"

subsection \<open>A string written to a TEXT column and read back\<close>

text \<open>
  The database driver hands a string to SQLite as UTF-8. A surrogate code unit that is
  not part of a pair has no UTF-8 form and is stored as U+FFFD; a high surrogate
  followed by a low one is a pair and is kept.
\<close>

definition is_high_surrogate :: "16 word \<Rightarrow> bool" where
  "is_high_surrogate u \<longleftrightarrow> 0xD800 \<le> u \<and> u \<le> 0xDBFF"

definition is_low_surrogate :: "16 word \<Rightarrow> bool" where
  "is_low_surrogate u \<longleftrightarrow> 0xDC00 \<le> u \<and> u \<le> 0xDFFF"

fun utf8_text :: "js_string \<Rightarrow> js_string" where
  "utf8_text [] = []"
| "utf8_text [u] = [if is_high_surrogate u \<or> is_low_surrogate u then 0xFFFD else u]"
| "utf8_text (u # v # ws) =
     (if is_high_surrogate u \<and> is_low_surrogate v then u # v # utf8_text ws
      else if is_high_surrogate u \<or> is_low_surrogate u then 0xFFFD # utf8_text (v # ws)
      else u # utf8_text (v # ws))"

subsection \<open>The room id: \<^verbatim>\<open>[a, b].sort((a, b) => a - b).join('-')\<close>\<close>

definition digit_char :: "nat \<Rightarrow> char" where
  "digit_char d = ''0123456789'' ! d"

function show_nat :: "nat \<Rightarrow> string" where
  "show_nat n =
     (if n < 10 then [digit_char n] else show_nat (n div 10) @ [digit_char (n mod 10)])"
  by pat_completeness auto
termination
  by (relation "measure (\<lambda>n. n)") auto

declare show_nat.simps [simp del]

text \<open>
  Number-to-string conversion of a safe integer: decimal digits, a minus sign first.
\<close>

definition number_to_string :: "int \<Rightarrow> string" where
  "number_to_string i =
     (if i < 0 then CHR ''-'' # show_nat (nat (- i)) else show_nat (nat i))"

text \<open>
  Sorting a two-element array with the comparator \<open>a - b\<close>: the second element moves
  in front of the first exactly when the comparator puts it first.
\<close>

definition sort_pair :: "int \<Rightarrow> int \<Rightarrow> int list" where
  "sort_pair a b = (if b - a < 0 then [b, a] else [a, b])"

fun join_dash :: "int list \<Rightarrow> string" where
  "join_dash [] = []"
| "join_dash [x] = number_to_string x"
| "join_dash (x # y # ys) = number_to_string x @ ''-'' @ join_dash (y # ys)"

definition roomId :: "user_id \<Rightarrow> user_id \<Rightarrow> room_id" where
  "roomId a b = join_dash (sort_pair a b)"

section \<open>The socket layer: emitting to sockets and rooms\<close>

text \<open>
  \<^verbatim>\<open>io.emit\<close> reaches every connected socket, \<^verbatim>\<open>io.to(room).emit\<close> every socket that
  joined the room, \<^verbatim>\<open>socket.to(room).emit\<close> every socket of the room except the socket
  it is called on. \<^verbatim>\<open>socket.join\<close> adds the socket to the room unless it is there already.
  \<^verbatim>\<open>socket.emit\<close> reaches its socket while that socket is connected and is dropped
  after it has disconnected.
\<close>

definition socket_emit :: "server_state \<Rightarrow> conn_id \<Rightarrow> out_event \<Rightarrow> emission list" where
  "socket_emit s c ev = (if c \<in> fst ` set (sockets s) then [(c, ev)] else [])"

definition io_emit :: "server_state \<Rightarrow> out_event \<Rightarrow> emission list" where
  "io_emit s ev = map (\<lambda>sk. (fst sk, ev)) (sockets s)"

definition room_members :: "server_state \<Rightarrow> room_id \<Rightarrow> conn_id list" where
  "room_members s r = map snd (filter (\<lambda>rc. fst rc = r) (rooms s))"

definition io_to_emit :: "server_state \<Rightarrow> room_id \<Rightarrow> out_event \<Rightarrow> emission list" where
  "io_to_emit s r ev = map (\<lambda>d. (d, ev)) (room_members s r)"

definition socket_to_emit ::
  "server_state \<Rightarrow> conn_id \<Rightarrow> room_id \<Rightarrow> out_event \<Rightarrow> emission list" where
  "socket_to_emit s c r ev = map (\<lambda>d. (d, ev)) (filter (\<lambda>d. d \<noteq> c) (room_members s r))"

definition socket_join :: "server_state \<Rightarrow> conn_id \<Rightarrow> room_id \<Rightarrow> server_state" where
  "socket_join s c r =
     (if (r, c) \<in> set (rooms s) then s else s\<lparr>rooms := rooms s @ [(r, c)]\<rparr>)"

section \<open>Database queries\<close>

definition findUserById :: "server_state \<Rightarrow> user_id \<Rightarrow> user_row option" where
  "findUserById s i = find (\<lambda>u. u_id u = i) (users s)"

text \<open>
  The history query of \<^verbatim>\<open>join_conversation\<close>: messages joined with the users table on
  the sender, restricted to the two directions of the pair, ORDER BY timestamp ASC,
  LIMIT 50. Rows with equal timestamps are kept in table order here; SQLite promises no
  order among them.
\<close>

definition between :: "user_id \<Rightarrow> user_id \<Rightarrow> message_row \<Rightarrow> bool" where
  "between a b m \<longleftrightarrow>
     (m_sender_id m = a \<and> m_receiver_id m = b) \<or> (m_sender_id m = b \<and> m_receiver_id m = a)"

definition conversation_rows ::
  "server_state \<Rightarrow> user_id \<Rightarrow> user_id \<Rightarrow> (message_row \<times> string) list" where
  "conversation_rows s a b =
     concat (map (\<lambda>m. map (\<lambda>u. (m, u_name u))
                        (filter (\<lambda>u. m_sender_id m = u_id u) (users s)))
                 (filter (between a b) (messages s)))"

definition history_query ::
  "server_state \<Rightarrow> user_id \<Rightarrow> user_id \<Rightarrow> (message_row \<times> string) list" where
  "history_query s a b =
     take 50 (sort_key (\<lambda>r. m_timestamp (fst r)) (conversation_rows s a b))"

definition format_message :: "message_row \<times> string \<Rightarrow> message" where
  "format_message r =
     \<lparr>w_id = m_id (fst r), w_senderId = m_sender_id (fst r),
      w_receiverId = m_receiver_id (fst r), w_content = m_content (fst r),
      w_timestamp = m_timestamp (fst r), w_senderName = snd r\<rparr>"

text \<open>
  The INSERT of \<^verbatim>\<open>send_message\<close>: the row gets the next AUTOINCREMENT id and the
  CURRENT_TIMESTAMP default, and holds the content as the TEXT column stores it.
  database.js never switches foreign keys on, so the insert does not look at the users
  table.
\<close>

definition insert_message ::
  "server_state \<Rightarrow> instant \<Rightarrow> user_id \<Rightarrow> user_id \<Rightarrow> js_string \<Rightarrow> int \<times> server_state" where
  "insert_message s now sid rid txt =
     (let lastID = messages_seq s + 1
      in (lastID,
          s\<lparr>messages := messages s @
                [\<lparr>m_id = lastID, m_sender_id = sid, m_receiver_id = rid,
                  m_content = utf8_text txt, m_timestamp = now\<rparr>],
            messages_seq := lastID\<rparr>))"

section \<open>The socket handlers\<close>

text \<open>
  Each handler runs on a connected socket \<open>c\<close> and returns the new state with the
  events it emits, in order. \<^verbatim>\<open>!socket.userId\<close> holds for a socket without identity
  and for the id 0.

  The authenticate handler is asynchronous. Its first part runs when the event
  arrives: it rejects a missing or empty token and otherwise suspends at
  \<^verbatim>\<open>await verifyToken(token)\<close>. Its second part runs when the verification and the
  user lookup have returned; other events, also the disconnect of the same socket, may
  be handled in between. The second part then still writes the entry of the socket
  into \<^verbatim>\<open>onlineUsers\<close>, whether or not the socket is connected. The other handlers
  are taken as one step each, together with their database callback.
\<close>

definition connection :: "conn_id \<Rightarrow> string option \<Rightarrow> server_state \<Rightarrow> server_state \<times> emission list" where
  "connection c handshake_token s =
     (s\<lparr>sockets := Map_set (sockets s) c None\<rparr>,
      case handshake_token of
        None \<Rightarrow> []
      | Some t \<Rightarrow> if t = [] then [] else [(c, Authenticate_echo t)])"

definition authenticate ::
  "conn_id \<Rightarrow> string option \<Rightarrow> server_state \<Rightarrow> server_state \<times> emission list" where
  "authenticate c token s =
     (case token of
        None \<Rightarrow> (s, [(c, Auth_error Token_missing)])
      | Some t \<Rightarrow>
          if t = [] then (s, [(c, Auth_error Token_missing)])
          else (s\<lparr>pending := pending s @ [(c, t)]\<rparr>, []))"

definition authenticate_resume ::
  "env \<Rightarrow> conn_id \<Rightarrow> string \<Rightarrow> server_state \<Rightarrow> server_state \<times> emission list" where
  "authenticate_resume e c t s =
     (case verifyToken e t of
        None \<Rightarrow> (s, socket_emit s c (Auth_error Token_invalid))
      | Some decoded_id \<Rightarrow>
          if db_err e then (s, socket_emit s c (Auth_error Token_invalid))
          else (case findUserById s decoded_id of
                  None \<Rightarrow> (s, socket_emit s c (Auth_error User_missing))
                | Some user \<Rightarrow>
                    let s1 = s\<lparr>sockets :=
                                 (if c \<in> fst ` set (sockets s)
                                  then Map_set (sockets s) c
                                         (Some \<lparr>userId = u_id user, userName = u_name user,
                                                userPhone = u_phone user\<rparr>)
                                  else sockets s),
                               onlineUsers := Map_set (onlineUsers s) c
                                 \<lparr>o_userId = u_id user, o_name = u_name user,
                                  o_phone = u_phone user, o_socketId = c,
                                  o_connectedAt = js_now e\<rparr>\<rparr>
                    in (s1, socket_emit s1 c (Auth_success user) @
                            io_emit s1 (Users_online (Map_values (onlineUsers s1))))))"

definition join_conversation ::
  "env \<Rightarrow> conn_id \<Rightarrow> identity option \<Rightarrow> user_id \<Rightarrow> user_id \<Rightarrow> server_state
     \<Rightarrow> server_state \<times> emission list" where
  "join_conversation e c sk uid fid s =
     (case sk of
        None \<Rightarrow> (s, [(c, Error Not_authenticated)])
      | Some i \<Rightarrow>
          if userId i = 0 then (s, [(c, Error Not_authenticated)])
          else let s1 = socket_join s c (roomId uid fid)
               in (s1, if db_err e then []
                       else [(c, Message_history (map format_message (history_query s1 uid fid)))]))"

definition send_message ::
  "env \<Rightarrow> conn_id \<Rightarrow> identity option \<Rightarrow> message_data \<Rightarrow> server_state
     \<Rightarrow> server_state \<times> emission list" where
  "send_message e c sk d s =
     (case sk of
        None \<Rightarrow> (s, [(c, Error Not_authenticated)])
      | Some i \<Rightarrow>
          if userId i = 0 then (s, [(c, Error Not_authenticated)])
          else if content d = [] \<or> trim (content d) = [] then (s, [(c, Error Empty_content)])
          else if senderId d \<noteq> userId i then (s, [(c, Error Forbidden)])
          else if db_err e then (s, [(c, Error Save_failed)])
          else let (lastID, s1) = insert_message s (db_now e) (senderId d) (receiverId d)
                                    (trim (content d));
                   msg = \<lparr>w_id = lastID, w_senderId = senderId d, w_receiverId = receiverId d,
                          w_content = trim (content d), w_timestamp = js_now e,
                          w_senderName = userName i\<rparr>
               in (s1, io_to_emit s1 (roomId (senderId d) (receiverId d)) (New_message msg)))"

definition typing ::
  "conn_id \<Rightarrow> identity option \<Rightarrow> user_id \<Rightarrow> bool \<Rightarrow> server_state
     \<Rightarrow> server_state \<times> emission list" where
  "typing c sk rid isTyping s =
     (case sk of
        None \<Rightarrow> (s, [])
      | Some i \<Rightarrow>
          if userId i = 0 then (s, [])
          else (s, socket_to_emit s c (roomId (userId i) rid)
                     (User_typing (userId i) (userName i) isTyping)))"

text \<open>
  When the disconnect handler runs the socket layer has already taken the socket out
  of the connected sockets and of its rooms.
\<close>

definition disconnect :: "conn_id \<Rightarrow> server_state \<Rightarrow> server_state \<times> emission list" where
  "disconnect c s =
     (let s1 = s\<lparr>sockets := Map_delete (sockets s) c,
                 rooms := filter (\<lambda>rc. snd rc \<noteq> c) (rooms s),
                 onlineUsers := Map_delete (onlineUsers s) c\<rparr>
      in (s1, io_emit s1 (Users_online (Map_values (onlineUsers s1)))))"

text \<open>
  \<^verbatim>\<open>socket.on(name, handler)\<close>: an event arriving on socket \<open>c\<close> runs the handler of
  its name with the properties of that socket. Events only arrive on connected sockets.
\<close>

definition on_event ::
  "env \<Rightarrow> conn_id \<Rightarrow> in_event \<Rightarrow> server_state \<Rightarrow> server_state \<times> emission list" where
  "on_event e c ev s =
     (case map_of (sockets s) c of
        None \<Rightarrow> (s, [])
      | Some sk \<Rightarrow>
          (case ev of
             Authenticate token \<Rightarrow> authenticate c token s
           | Join_conversation uid fid \<Rightarrow> join_conversation e c sk uid fid s
           | Send_message d \<Rightarrow> send_message e c sk d s
           | Typing rid isTyping \<Rightarrow> typing c sk rid isTyping s
           | Disconnect \<Rightarrow> disconnect c s))"

text \<open>
  A step of the server. A new connection carries a socket id that nothing in the state
  refers to. A suspended authenticate call resumes once.
\<close>

definition fresh :: "server_state \<Rightarrow> conn_id \<Rightarrow> bool" where
  "fresh s c \<longleftrightarrow>
     c \<notin> fst ` set (sockets s) \<and> c \<notin> fst ` set (onlineUsers s)
     \<and> c \<notin> fst ` set (pending s) \<and> c \<notin> snd ` set (rooms s)"

definition server_step ::
  "env \<Rightarrow> step \<Rightarrow> server_state \<Rightarrow> server_state \<times> emission list" where
  "server_step e st s =
     (case st of
        Connection c token \<Rightarrow> if fresh s c then connection c token s else (s, [])
      | Event c ev \<Rightarrow> on_event e c ev s
      | Resume c t \<Rightarrow>
          if (c, t) \<in> set (pending s)
          then authenticate_resume e c t (s\<lparr>pending := remove1 (c, t) (pending s)\<rparr>)
          else (s, []))"

fun run :: "env \<Rightarrow> step list \<Rightarrow> server_state \<Rightarrow> server_state \<times> emission list" where
  "run e [] s = (s, [])"
| "run e (st # sts) s =
     (let (s1, out1) = server_step e st s; (s2, out2) = run e sts s1 in (s2, out1 @ out2))"

text \<open>
  What holds of the sockets and the map of online users in every state the server
  reaches: no socket id occurs twice in either, every entry of the map carries the
  socket id it is stored under, and every connected socket with a bound identity has
  the entry of that identity.
\<close>

definition registry_ok :: "server_state \<Rightarrow> bool" where
  "registry_ok s \<longleftrightarrow>
     distinct (map fst (onlineUsers s)) \<and> distinct (map fst (sockets s))
     \<and> list_all (\<lambda>kx. o_socketId (snd kx) = fst kx) (onlineUsers s)
     \<and> list_all (\<lambda>ck. case snd ck of
                          None \<Rightarrow> True
                        | Some i \<Rightarrow>
                            (case map_of (onlineUsers s) (fst ck) of
                               None \<Rightarrow> False
                             | Some x \<Rightarrow> o_userId x = userId i \<and> o_name x = userName i
                                         \<and> o_phone x = userPhone i))
                 (sockets s)"

text \<open>
  A row as the messages table can hold it: its ids are safe integers and its content
  is text that UTF-8 can carry.
\<close>

definition stored_row_ok :: "message_row \<Rightarrow> bool" where
  "stored_row_ok r \<longleftrightarrow>
     safe_integer (m_id r) \<and> safe_integer (m_sender_id r) \<and> safe_integer (m_receiver_id r)
     \<and> utf8_text (m_content r) = m_content r"

section \<open>The history the specification describes\<close>

text \<open>
  The specification's reading of the history reply, in its own words: the messages of
  the pair ordered by timestamp, then id, of which the latest 50 are kept, ascending.
\<close>

definition spec_latest_history :: "server_state \<Rightarrow> user_id \<Rightarrow> user_id \<Rightarrow> message list" where
  "spec_latest_history s a b =
     (let xs = sort_key (\<lambda>m. (w_timestamp m, w_id m))
                 (map format_message (conversation_rows s a b))
      in drop (length xs - 50) xs)"

section \<open>Concrete users, payloads and server states\<close>

definition an :: user_row where
  "an = \<lparr>u_id = 1, u_name = ''An'', u_phone = ''0900000001'', u_created_at = 0\<rparr>"

definition binh :: user_row where
  "binh = \<lparr>u_id = 2, u_name = ''Binh'', u_phone = ''0900000002'', u_created_at = 0\<rparr>"

definition chi :: user_row where
  "chi = \<lparr>u_id = 3, u_name = ''Chi'', u_phone = ''0900000003'', u_created_at = 0\<rparr>"

definition identity_of :: "user_row \<Rightarrow> identity" where
  "identity_of u = \<lparr>userId = u_id u, userName = u_name u, userPhone = u_phone u\<rparr>"

definition entry_of :: "user_row \<Rightarrow> conn_id \<Rightarrow> instant \<Rightarrow> online_entry" where
  "entry_of u c t = \<lparr>o_userId = u_id u, o_name = u_name u, o_phone = u_phone u,
                     o_socketId = c, o_connectedAt = t\<rparr>"

definition env_ok :: env where
  "env_ok = \<lparr>verifyToken = (\<lambda>t. if t = ''token-an'' then Some 1
                                else if t = ''token-binh'' then Some 2 else None),
             db_err = False, db_now = 100, js_now = 100\<rparr>"

definition env_db_down :: env where
  "env_db_down = env_ok\<lparr>db_err := True\<rparr>"

text \<open>
  An and Binh have exchanged 51 messages, one per second; An is connected on C1 and
  Chi, who is a friend of neither, on E1.
\<close>

definition nth_row :: "nat \<Rightarrow> message_row" where
  "nth_row n = \<lparr>m_id = int n, m_sender_id = 1, m_receiver_id = 2,
                m_content = [0x68, 0x69], m_timestamp = n\<rparr>"

definition nth_message :: "nat \<Rightarrow> message" where
  "nth_message n = format_message (nth_row n, ''An'')"

definition long_conversation :: server_state where
  "long_conversation =
     \<lparr>users = [an, binh, chi], friends = [(1, 2)], messages = map nth_row [1..<52],
      messages_seq = 51,
      sockets = [(''C1'', Some (identity_of an)), (''E1'', Some (identity_of chi))],
      rooms = [],
      onlineUsers = [(''C1'', entry_of an ''C1'' 10), (''E1'', entry_of chi ''E1'' 20)],
      pending = []\<rparr>"

text \<open>
  An is connected twice, on C1 and C2, and Binh once, on D1; all three sockets have
  joined the room of the pair.
\<close>

definition two_sessions :: server_state where
  "two_sessions =
     \<lparr>users = [an, binh, chi], friends = [(1, 2)], messages = [], messages_seq = 0,
      sockets = [(''C1'', Some (identity_of an)), (''C2'', Some (identity_of an)),
                 (''D1'', Some (identity_of binh))],
      rooms = [(roomId 1 2, ''C1''), (roomId 1 2, ''C2''), (roomId 1 2, ''D1'')],
      onlineUsers = [(''C1'', entry_of an ''C1'' 10), (''C2'', entry_of an ''C2'' 20),
                     (''D1'', entry_of binh ''D1'' 30)],
      pending = []\<rparr>"

text \<open>
  Binh has authenticated on S1, then An on S2; S3 is connected and not yet
  authenticated.
\<close>

definition three_sockets :: server_state where
  "three_sockets =
     \<lparr>users = [an, binh, chi], friends = [(1, 2)], messages = [], messages_seq = 0,
      sockets = [(''S1'', Some (identity_of binh)), (''S2'', Some (identity_of an)),
                 (''S3'', None)],
      rooms = [],
      onlineUsers = [(''S1'', entry_of binh ''S1'' 10), (''S2'', entry_of an ''S2'' 20)],
      pending = []\<rparr>"

definition roster3 :: "online_entry list" where
  "roster3 = [entry_of binh ''S1'' 10, entry_of an ''S2'' 20, entry_of binh ''S3'' 100]"

text \<open>Payloads: " hi" followed by a line feed; a space and a tab; and two variants.\<close>

definition hi_data :: message_data where
  "hi_data = \<lparr>senderId = 1, receiverId = 2, content = [0x20, 0x68, 0x69, 0x0A]\<rparr>"

definition blank_data :: message_data where
  "blank_data = \<lparr>senderId = 2, receiverId = 1, content = [0x20, 0x09]\<rparr>"

definition spoofed_data :: message_data where
  "spoofed_data = \<lparr>senderId = 2, receiverId = 1, content = [0x68, 0x69]\<rparr>"

definition stranger_data :: message_data where
  "stranger_data = \<lparr>senderId = 1, receiverId = 99, content = [0x68, 0x69]\<rparr>"

definition hi_row :: message_row where
  "hi_row = \<lparr>m_id = 1, m_sender_id = 1, m_receiver_id = 2, m_content = [0x68, 0x69],
             m_timestamp = 100\<rparr>"

definition hi_message :: message where
  "hi_message = \<lparr>w_id = 1, w_senderId = 1, w_receiverId = 2, w_content = [0x68, 0x69],
                 w_timestamp = 100, w_senderName = ''An''\<rparr>"

definition stranger_row :: message_row where
  "stranger_row = \<lparr>m_id = 1, m_sender_id = 1, m_receiver_id = 99,
                   m_content = [0x68, 0x69], m_timestamp = 100\<rparr>"

text \<open>
  A payload whose content holds a high surrogate without its low surrogate, and the
  message broadcast for it.
\<close>

definition lone_data :: message_data where
  "lone_data = \<lparr>senderId = 1, receiverId = 2, content = [0x68, 0xD83D, 0x69]\<rparr>"

definition lone_message :: message where
  "lone_message = \<lparr>w_id = 1, w_senderId = 1, w_receiverId = 2,
                    w_content = [0x68, 0xD83D, 0x69], w_timestamp = 100,
                    w_senderName = ''An''\<rparr>"

text \<open>
  An, Binh and Chi are connected; Chi's socket E1 has joined the room of An and the id
  99, which is the id of no user.
\<close>

definition stranger_room :: server_state where
  "stranger_room =
     \<lparr>users = [an, binh, chi], friends = [(1, 2)], messages = [], messages_seq = 0,
      sockets = [(''C1'', Some (identity_of an)), (''D1'', Some (identity_of binh)),
                 (''E1'', Some (identity_of chi))],
      rooms = [(roomId 1 2, ''C1''), (roomId 1 2, ''D1''), (roomId 1 99, ''E1'')],
      onlineUsers = [(''C1'', entry_of an ''C1'' 10), (''D1'', entry_of binh ''D1'' 20),
                     (''E1'', entry_of chi ''E1'' 30)],
      pending = []\<rparr>"

definition stranger_message :: message where
  "stranger_message = \<lparr>w_id = 1, w_senderId = 1, w_receiverId = 99,
                        w_content = [0x68, 0x69], w_timestamp = 100, w_senderName = ''An''\<rparr>"

text \<open>
  A store with messages of three pairs: An to Binh, An to Chi, Binh to An, Chi to
  Binh. Chi is connected on E1. The history of the pair An and Binh has the first and
  the third message.
\<close>

definition mixed_store :: server_state where
  "mixed_store =
     \<lparr>users = [an, binh, chi], friends = [(1, 2)],
      messages =
        [\<lparr>m_id = 1, m_sender_id = 1, m_receiver_id = 2, m_content = [0x68, 0x69],
          m_timestamp = 10\<rparr>,
         \<lparr>m_id = 2, m_sender_id = 1, m_receiver_id = 3, m_content = [0x61],
          m_timestamp = 20\<rparr>,
         \<lparr>m_id = 3, m_sender_id = 2, m_receiver_id = 1, m_content = [0x6F, 0x6B],
          m_timestamp = 30\<rparr>,
         \<lparr>m_id = 4, m_sender_id = 3, m_receiver_id = 2, m_content = [0x62],
          m_timestamp = 40\<rparr>],
      messages_seq = 4,
      sockets = [(''E1'', Some (identity_of chi))],
      rooms = [],
      onlineUsers = [(''E1'', entry_of chi ''E1'' 50)],
      pending = []\<rparr>"

definition mixed_reply :: "message list" where
  "mixed_reply =
     [\<lparr>w_id = 1, w_senderId = 1, w_receiverId = 2, w_content = [0x68, 0x69],
       w_timestamp = 10, w_senderName = ''An''\<rparr>,
      \<lparr>w_id = 3, w_senderId = 2, w_receiverId = 1, w_content = [0x6F, 0x6B],
       w_timestamp = 30, w_senderName = ''Binh''\<rparr>]"

section \<open>The room id is canonical\<close>

lemma digit_char_inj: "a < 10 \<Longrightarrow> b < 10 \<Longrightarrow> digit_char a = digit_char b \<Longrightarrow> a = b"
  unfolding digit_char_def
  by (subst (asm) nth_eq_iff_index_eq) simp_all

lemma digit_char_not_dash: "d < 10 \<Longrightarrow> digit_char d \<noteq> CHR ''-''"
proof -
  assume "d < 10"
  then have "digit_char d \<in> set ''0123456789''"
    unfolding digit_char_def by (intro nth_mem) simp
  then show ?thesis by auto
qed

lemma show_nat_not_Nil: "show_nat n \<noteq> []"
  by (subst show_nat.simps) simp

lemma show_nat_no_dash: "CHR ''-'' \<notin> set (show_nat n)"
proof (induction n rule: show_nat.induct)
  case (1 n)
  show ?case
  proof (cases "n < 10")
    case True
    then show ?thesis using digit_char_not_dash[of n] by (subst show_nat.simps) auto
  next
    case False
    then show ?thesis using 1 digit_char_not_dash[of "n mod 10"]
      by (subst show_nat.simps) auto
  qed
qed

lemma show_nat_length_one: "length (show_nat n) = Suc 0 \<longleftrightarrow> n < 10"
  using show_nat_not_Nil[of "n div 10"]
  by (subst show_nat.simps) (auto simp: Suc_le_eq)

lemma show_nat_inj: "show_nat n = show_nat m \<Longrightarrow> n = m"
proof (induction n arbitrary: m rule: show_nat.induct)
  case (1 n)
  show ?case
  proof (cases "n < 10")
    case True
    then have "length (show_nat m) = Suc 0"
      using "1.prems" show_nat_length_one[of n] by simp
    then have m: "m < 10" by (simp add: show_nat_length_one)
    have "digit_char n = digit_char m"
      using "1.prems" True m by (simp add: show_nat.simps[of n] show_nat.simps[of m])
    then show ?thesis using True m by (rule digit_char_inj[rotated 2])
  next
    case False
    then have "length (show_nat m) \<noteq> Suc 0"
      using "1.prems" show_nat_length_one[of n] by simp
    then have m: "\<not> m < 10" by (simp add: show_nat_length_one)
    have "show_nat (n div 10) @ [digit_char (n mod 10)]
        = show_nat (m div 10) @ [digit_char (m mod 10)]"
      using "1.prems" False m by (simp add: show_nat.simps[of n] show_nat.simps[of m])
    then have a: "show_nat (n div 10) = show_nat (m div 10)"
      and b: "digit_char (n mod 10) = digit_char (m mod 10)" by simp_all
    have "n div 10 = m div 10" using "1.IH"[OF False a] .
    moreover have "n mod 10 = m mod 10" using b by (intro digit_char_inj) simp_all
    ultimately show ?thesis by (metis div_mult_mod_eq)
  qed
qed

lemma number_to_string_inj: "number_to_string x = number_to_string y \<Longrightarrow> x = y"
proof -
  assume eq: "number_to_string x = number_to_string y"
  have hd_neg: "\<And>z. z < 0 \<Longrightarrow> hd (number_to_string z) = CHR ''-''"
    by (simp add: number_to_string_def)
  have hd_pos: "\<And>z. \<not> z < 0 \<Longrightarrow> hd (number_to_string z) \<noteq> CHR ''-''"
    using show_nat_no_dash show_nat_not_Nil
    by (metis hd_in_set number_to_string_def)
  have same: "x < 0 \<longleftrightarrow> y < 0"
    using eq hd_neg hd_pos by metis
  show "x = y"
  proof (cases "x < 0")
    case True
    then have "show_nat (nat (- x)) = show_nat (nat (- y))"
      using eq same by (simp add: number_to_string_def)
    then have "nat (- x) = nat (- y)" by (rule show_nat_inj)
    then show ?thesis using True same by simp
  next
    case False
    then have "show_nat (nat x) = show_nat (nat y)"
      using eq same by (simp add: number_to_string_def)
    then have "nat x = nat y" by (rule show_nat_inj)
    then show ?thesis using False same by simp
  qed
qed

lemma split_at_first:
  "x \<notin> set xs \<Longrightarrow> x \<notin> set xs' \<Longrightarrow> xs @ x # ys = xs' @ x # ys'
     \<Longrightarrow> xs = xs' \<and> ys = ys'"
proof (induction xs arbitrary: xs')
  case Nil
  then show ?case by (cases xs') auto
next
  case (Cons a xs)
  then show ?case by (cases xs') auto
qed

lemma dash_split_unique:
  assumes "number_to_string x @ ''-'' @ number_to_string y
         = number_to_string x' @ ''-'' @ number_to_string y'"
  shows "x = x' \<and> y = y'"
proof -
  have hd_neg: "\<And>z r. z < 0 \<Longrightarrow> hd (number_to_string z @ r) = CHR ''-''"
    by (simp add: number_to_string_def)
  have hd_pos: "\<And>z r. \<not> z < 0 \<Longrightarrow> hd (number_to_string z @ r) \<noteq> CHR ''-''"
    using show_nat_no_dash show_nat_not_Nil
    by (metis hd_append2 hd_in_set number_to_string_def)
  have same: "x < 0 \<longleftrightarrow> x' < 0"
    using assms hd_neg hd_pos by metis
  have "show_nat (nat \<bar>x\<bar>) @ CHR ''-'' # number_to_string y
      = show_nat (nat \<bar>x'\<bar>) @ CHR ''-'' # number_to_string y'"
    using assms same by (cases "x < 0") (simp_all add: number_to_string_def)
  then have "show_nat (nat \<bar>x\<bar>) = show_nat (nat \<bar>x'\<bar>)
           \<and> number_to_string y = number_to_string y'"
    by (rule split_at_first[OF show_nat_no_dash show_nat_no_dash])
  then have "nat \<bar>x\<bar> = nat \<bar>x'\<bar>" and "y = y'"
    using show_nat_inj number_to_string_inj by blast+
  then show ?thesis using same by auto
qed

lemma roomId_min_max:
  "roomId a b = number_to_string (min a b) @ ''-'' @ number_to_string (max a b)"
  by (simp add: roomId_def sort_pair_def min_def max_def)

lemma roomId_same_peer: "roomId a b = roomId a c \<Longrightarrow> b = c"
proof -
  assume "roomId a b = roomId a c"
  then have "min a b = min a c \<and> max a b = max a c"
    unfolding roomId_min_max by (intro dash_split_unique)
  then show "b = c" by (auto simp: min_def max_def split: if_splits)
qed

text \<open>
  Claim C5. For user ids that are safe integers, the room id of a pair does not depend
  on the order of the two ids, and for a fixed first user two different peers get two
  different room ids.
\<close>

theorem roomId_commutative_and_separating:
  assumes "safe_integer a" and "safe_integer b" and "safe_integer c"
  shows "roomId a b = roomId b a \<and> (b \<noteq> c \<longrightarrow> roomId a b \<noteq> roomId a c)"
proof
  show "roomId a b = roomId b a"
    by (simp add: roomId_min_max min.commute max.commute)
  show "b \<noteq> c \<longrightarrow> roomId a b \<noteq> roomId a c"
    using roomId_same_peer by blast
qed

theorem roomId_commutative_and_separating_witness:
  "safe_integer 7 \<and> safe_integer 12 \<and> safe_integer 3
   \<and> roomId 7 12 = roomId 12 7 \<and> (12::int) \<noteq> 3 \<and> roomId 7 12 \<noteq> roomId 7 3"
proof -
  have s: "safe_integer 7" "safe_integer 12" "safe_integer 3"
    by (simp_all add: safe_integer_def)
  show ?thesis
    using s roomId_commutative_and_separating [OF s] by auto
qed

section \<open>The history reply of join_conversation\<close>

lemma history_query_socket_join [simp]:
  "history_query (socket_join s c r) a b = history_query s a b"
  by (simp add: socket_join_def history_query_def conversation_rows_def)

lemma w_timestamp_format [simp]: "w_timestamp (format_message r) = m_timestamp (fst r)"
  by (simp add: format_message_def)

lemma history_query_oldest:
  fixes s a b
  defines "xs \<equiv> sort_key (\<lambda>r. m_timestamp (fst r)) (conversation_rows s a b)"
  shows "history_query s a b = take 50 xs"
    and "sorted (map (\<lambda>r. m_timestamp (fst r)) (take 50 xs))"
    and "\<forall>h\<in>set (take 50 xs). \<forall>r\<in>set (drop 50 xs).
           m_timestamp (fst h) \<le> m_timestamp (fst r)"
proof -
  show "history_query s a b = take 50 xs"
    by (simp add: history_query_def xs_def)
  have "sorted (map (\<lambda>r. m_timestamp (fst r)) (take 50 xs @ drop 50 xs))"
    by (simp add: xs_def)
  then have "sorted (map (\<lambda>r. m_timestamp (fst r)) (take 50 xs)
                   @ map (\<lambda>r. m_timestamp (fst r)) (drop 50 xs))"
    by (simp only: map_append)
  then show "sorted (map (\<lambda>r. m_timestamp (fst r)) (take 50 xs))"
    and "\<forall>h\<in>set (take 50 xs). \<forall>r\<in>set (drop 50 xs).
           m_timestamp (fst h) \<le> m_timestamp (fst r)"
    by (auto simp: sorted_append)
qed

text \<open>
  With one users row per sender id, as the primary key of the users table ensures, the
  joined rows of a pair are exactly its rows of the messages table.
\<close>

lemma conversation_rows_messages:
  assumes "\<forall>m\<in>set (messages s). \<exists>u. filter (\<lambda>u. m_sender_id m = u_id u) (users s) = [u]"
  shows "map fst (conversation_rows s a b) = filter (between a b) (messages s)"
proof -
  have "map fst (concat (map (\<lambda>m. map (\<lambda>u. (m, u_name u))
                (filter (\<lambda>u. m_sender_id m = u_id u) (users s))) ms)) = ms"
    if "\<forall>m\<in>set ms. \<exists>u. filter (\<lambda>u. m_sender_id m = u_id u) (users s) = [u]" for ms
    using that by (induction ms) auto
  from this[of "filter (between a b) (messages s)"] assms
  show ?thesis by (simp add: conversation_rows_def)
qed

lemma long_conversation_reply:
  "snd (on_event env_ok ''C1'' (Join_conversation 1 2) long_conversation)
     = [(''C1'', Message_history (map nth_message [1..<51]))]"
  by code_simp

lemma long_conversation_latest:
  "spec_latest_history long_conversation 1 2 = map nth_message [2..<52]"
  by code_simp

lemma long_conversation_length: "length (conversation_rows long_conversation 1 2) = 51"
  by code_simp

text \<open>
  The claim as stated fails: with 51 messages between An and Binh, the reply to An's
  join carries the messages 1 to 50, the oldest ones, where the latest 50 are the
  messages 2 to 51.
\<close>

theorem join_conversation_latest_counterexample:
  "snd (on_event env_ok ''C1'' (Join_conversation 1 2) long_conversation)
     = [(''C1'', Message_history (map nth_message [1..<51]))]
   \<and> spec_latest_history long_conversation 1 2 = map nth_message [2..<52]
   \<and> map nth_message [1..<51] \<noteq> map nth_message [2..<52]"
proof -
  have "map nth_message [1..<51] \<noteq> map nth_message [2..<52]"
    by code_simp
  then show ?thesis
    using long_conversation_reply long_conversation_latest by simp
qed

text \<open>
  Claim C1, amended. When the history query succeeds, join_conversation on an
  authenticated socket replies to that socket with one message_history event. Its list
  \<open>H\<close> is part of the messages of the pair, has 50 of them or all if there are fewer,
  ascends by timestamp, and every message of the pair left out is at least as new as
  every message in \<open>H\<close>: when more than 50 exist the reply holds the oldest 50.
\<close>

theorem join_conversation_history_oldest_first:
  assumes "userId i \<noteq> 0" and "\<not> db_err e"
  shows "\<exists>H rest.
           snd (join_conversation e c (Some i) a b s) = [(c, Message_history H)]
         \<and> mset (H @ rest) = mset (map format_message (conversation_rows s a b))
         \<and> length H = min 50 (length (conversation_rows s a b))
         \<and> sorted (map w_timestamp H)
         \<and> (\<forall>h\<in>set H. \<forall>r\<in>set rest. w_timestamp h \<le> w_timestamp r)"
proof -
  define xs where "xs = sort_key (\<lambda>r. m_timestamp (fst r)) (conversation_rows s a b)"
  define H where "H = map format_message (take 50 xs)"
  define rest where "rest = map format_message (drop 50 xs)"
  note q = history_query_oldest[of s a b, folded xs_def]
  have "snd (join_conversation e c (Some i) a b s) = [(c, Message_history H)]"
    using assms by (simp add: join_conversation_def Let_def q(1) H_def)
  moreover have "mset (H @ rest) = mset (map format_message (conversation_rows s a b))"
  proof -
    have "H @ rest = map format_message xs"
      by (simp add: H_def rest_def flip: map_append)
    then show ?thesis by (simp add: xs_def)
  qed
  moreover have "length H = min 50 (length (conversation_rows s a b))"
    by (simp add: H_def xs_def min.commute)
  moreover have "sorted (map w_timestamp H)"
    using q(2) by (simp add: H_def comp_def)
  moreover have "\<forall>h\<in>set H. \<forall>r\<in>set rest. w_timestamp h \<le> w_timestamp r"
    using q(3) by (auto simp: H_def rest_def)
  ultimately show ?thesis by blast
qed

theorem join_conversation_history_oldest_first_witness:
  "userId (identity_of an) \<noteq> 0 \<and> \<not> db_err env_ok \<and>
   (\<exists>H. snd (join_conversation env_ok ''C1'' (Some (identity_of an)) 1 2 long_conversation)
           = [(''C1'', Message_history H)]
        \<and> length H = 50)"
proof -
  have h1: "userId (identity_of an) \<noteq> 0" by (simp add: identity_of_def an_def)
  have h2: "\<not> db_err env_ok" by (simp add: env_ok_def)
  from join_conversation_history_oldest_first [OF h1 h2, of "''C1''" 1 2 long_conversation]
  obtain H rest where
    a: "snd (join_conversation env_ok ''C1'' (Some (identity_of an)) 1 2 long_conversation)
          = [(''C1'', Message_history H)]"
    and c: "length H = min 50 (length (conversation_rows long_conversation 1 2))"
    by blast
  have "length H = 50"
    using c long_conversation_length by simp
  then show ?thesis using h1 h2 a by auto
qed

section \<open>The typing indicator\<close>

text \<open>
  The claim as stated fails: An types on C1, and An's other socket C2, which joined the
  room, receives user_typing together with Binh's socket D1.
\<close>

theorem typing_second_session_counterexample:
  "snd (on_event env_ok ''C1'' (Typing 2 True) two_sessions)
     = [(''C2'', User_typing 1 ''An'' True), (''D1'', User_typing 1 ''An'' True)]"
  by code_simp

text \<open>
  Claim C2, amended. A typing event sent from an authenticated socket \<open>c\<close> changes no
  state and is delivered as user_typing to exactly the sockets that joined the room of
  the sender and the receiver, except \<open>c\<close> itself: to the peer's joined sockets and to
  the sender's other joined sockets alike.
\<close>

theorem typing_excludes_only_sending_socket:
  assumes "userId i \<noteq> 0"
  shows "fst (typing c (Some i) rid t s) = s
       \<and> ((d, ev) \<in> set (snd (typing c (Some i) rid t s))
            \<longleftrightarrow> ev = User_typing (userId i) (userName i) t
              \<and> (roomId (userId i) rid, d) \<in> set (rooms s) \<and> d \<noteq> c)"
  using assms by (force simp: typing_def socket_to_emit_def room_members_def)

theorem typing_excludes_only_sending_socket_witness:
  "userId (identity_of an) \<noteq> 0
   \<and> (''C2'', User_typing 1 ''An'' True)
        \<in> set (snd (typing ''C1'' (Some (identity_of an)) 2 True two_sessions))
   \<and> (''C1'', User_typing 1 ''An'' True)
        \<notin> set (snd (typing ''C1'' (Some (identity_of an)) 2 True two_sessions))"
proof -
  have h: "userId (identity_of an) \<noteq> 0" by (simp add: identity_of_def an_def)
  have r: "rooms two_sessions
             = [(roomId 1 2, ''C1''), (roomId 1 2, ''C2''), (roomId 1 2, ''D1'')]"
    by (simp add: two_sessions_def)
  have u: "userId (identity_of an) = 1" "userName (identity_of an) = ''An''"
    by (simp_all add: identity_of_def an_def)
  show ?thesis
    using h
      typing_excludes_only_sending_socket [OF h, of "''C1''" 2 True two_sessions "''C2''"
        "User_typing 1 ''An'' True"]
      typing_excludes_only_sending_socket [OF h, of "''C1''" 2 True two_sessions "''C1''"
        "User_typing 1 ''An'' True"]
    by (simp add: r u)
qed

section \<open>Sending a message\<close>

lemma trim_Nil [simp]: "trim [] = []"
  by (simp add: trim_def)

lemma hi_broadcast:
  "snd (send_message env_ok ''C1'' (Some (identity_of an)) hi_data two_sessions)
     = [(''C1'', New_message hi_message), (''C2'', New_message hi_message),
        (''D1'', New_message hi_message)]"
  by code_simp

lemma hi_stored:
  "messages (fst (send_message env_ok ''C1'' (Some (identity_of an)) hi_data two_sessions))
     = [hi_row]"
  by code_simp

lemma lone_surrogate_stored:
  "map m_content (messages (fst (send_message env_ok ''C1'' (Some (identity_of an)) lone_data
                                   two_sessions))) = [[0x68, 0xFFFD, 0x69]]
   \<and> snd (send_message env_ok ''C1'' (Some (identity_of an)) lone_data two_sessions)
       = [(''C1'', New_message lone_message), (''C2'', New_message lone_message),
          (''D1'', New_message lone_message)]"
  by code_simp

text \<open>
  Claim C3. A new_message event is emitted only when the insert has succeeded: the
  store then holds, appended as its newest row, the row of that message with the
  content as the TEXT column stores it, under the next id of the counter, and while
  that id is a safe integer it is the id the broadcast message carries. When the
  database reports an error the state is unchanged and the only event is one error
  event to the sender; if the message had passed the checks, it is the error of the
  failed save.
\<close>

theorem send_message_broadcast_after_persist:
  assumes "send_message e c sk d s = (s', outs)"
  shows "((r, New_message m) \<in> set outs \<longrightarrow>
            \<not> db_err e
          \<and> messages s' = messages s @
               [\<lparr>m_id = messages_seq s + 1, m_sender_id = w_senderId m,
                 m_receiver_id = w_receiverId m, m_content = utf8_text (w_content m),
                 m_timestamp = db_now e\<rparr>]
          \<and> messages_seq s' = messages_seq s + 1
          \<and> (safe_integer (messages_seq s + 1) \<longrightarrow> w_id m = messages_seq s + 1))
       \<and> (db_err e \<longrightarrow> s' = s \<and> (\<exists>x. outs = [(c, Error x)]))
       \<and> (db_err e \<and> (\<exists>i. sk = Some i \<and> userId i \<noteq> 0 \<and> senderId d = userId i)
            \<and> content d \<noteq> [] \<and> trim (content d) \<noteq> [] \<longrightarrow> outs = [(c, Error Save_failed)])"
  using assms
  by (auto simp: send_message_def insert_message_def io_to_emit_def Let_def
           split: option.splits if_splits)

theorem send_message_broadcast_after_persist_witness:
  "(''D1'', New_message hi_message)
      \<in> set (snd (send_message env_ok ''C1'' (Some (identity_of an)) hi_data two_sessions))
   \<and> safe_integer (messages_seq two_sessions + 1)
   \<and> messages (fst (send_message env_ok ''C1'' (Some (identity_of an)) hi_data two_sessions))
       = [hi_row]
   \<and> w_id hi_message = m_id hi_row
   \<and> db_err env_db_down
   \<and> send_message env_db_down ''C1'' (Some (identity_of an)) hi_data two_sessions
        = (two_sessions, [(''C1'', Error Save_failed)])"
proof -
  have mem: "(''D1'', New_message hi_message)
      \<in> set (snd (send_message env_ok ''C1'' (Some (identity_of an)) hi_data two_sessions))"
    by (simp add: hi_broadcast)
  have safe: "safe_integer (messages_seq two_sessions + 1)"
    by (simp add: two_sessions_def safe_integer_def)
  have row: "messages two_sessions @
               [\<lparr>m_id = messages_seq two_sessions + 1, m_sender_id = w_senderId hi_message,
                 m_receiver_id = w_receiverId hi_message,
                 m_content = utf8_text (w_content hi_message),
                 m_timestamp = db_now env_ok\<rparr>] = [hi_row]"
    by (simp add: hi_message_def hi_row_def env_ok_def two_sessions_def
          is_high_surrogate_def is_low_surrogate_def)
  have down: "db_err env_db_down" by (simp add: env_db_down_def)
  have valid: "(\<exists>i. Some (identity_of an) = Some i \<and> userId i \<noteq> 0
                    \<and> senderId hi_data = userId i)
             \<and> content hi_data \<noteq> [] \<and> trim (content hi_data) \<noteq> []"
    by (simp add: identity_of_def an_def hi_data_def trim_def is_white_space_def)
  note ok = send_message_broadcast_after_persist
            [OF surjective_pairing, of "''D1''" hi_message env_ok "''C1''"
               "Some (identity_of an)" hi_data two_sessions, THEN conjunct1, rule_format, OF mem]
  have stored: "messages (fst (send_message env_ok ''C1'' (Some (identity_of an)) hi_data
                                 two_sessions)) = [hi_row]"
    using ok row by simp
  have ident: "w_id hi_message = m_id hi_row"
    using ok safe by (simp add: hi_row_def two_sessions_def)
  have failed: "send_message env_db_down ''C1'' (Some (identity_of an)) hi_data two_sessions
        = (two_sessions, [(''C1'', Error Save_failed)])"
    using send_message_broadcast_after_persist
            [OF surjective_pairing, of "''D1''" hi_message env_db_down "''C1''"
               "Some (identity_of an)" hi_data two_sessions] down valid
    by (metis prod.collapse)
  show ?thesis using mem safe stored ident down failed by blast
qed

text \<open>
  The claim as stated fails: a message of white space only, sent on the socket S3 that
  has not authenticated, is answered with the not-authenticated error.
\<close>

theorem send_message_blank_counterexample:
  "trim (content blank_data) = []
   \<and> on_event env_ok ''S3'' (Send_message blank_data) three_sockets
       = (three_sockets, [(''S3'', Error Not_authenticated)])"
  by code_simp

text \<open>
  Claim C6, amended. A send_message whose content is empty or white space only leaves
  the state unchanged, so no row is inserted, and emits nothing but one error event to
  the sender: the empty-content error when the socket is authenticated, the
  not-authenticated error otherwise.
\<close>

theorem send_message_blank_content:
  assumes "content d = [] \<or> trim (content d) = []"
  shows "send_message e c sk d s
           = (s, [(c, Error (case sk of None \<Rightarrow> Not_authenticated
                             | Some i \<Rightarrow> if userId i = 0 then Not_authenticated
                                        else Empty_content))])"
  using assms by (auto simp: send_message_def split: option.splits)

theorem send_message_blank_content_witness:
  "(content blank_data = [] \<or> trim (content blank_data) = [])
   \<and> send_message env_ok ''C1'' (Some (identity_of an)) blank_data two_sessions
       = (two_sessions, [(''C1'', Error Empty_content)])"
proof -
  have h: "content blank_data = [] \<or> trim (content blank_data) = []"
    by (simp add: blank_data_def trim_def is_white_space_def)
  show ?thesis
    using h send_message_blank_content
            [OF h, of env_ok "''C1''" "Some (identity_of an)" two_sessions]
    by (simp add: identity_of_def an_def)
qed

text \<open>
  The claim as stated fails: An's socket C1 sends a message in Binh's name whose
  content is white space only, and the error it gets is the empty-content one.
\<close>

theorem send_message_spoofed_counterexample:
  "senderId blank_data \<noteq> userId (identity_of an)
   \<and> on_event env_ok ''C1'' (Send_message blank_data) two_sessions
       = (two_sessions, [(''C1'', Error Empty_content)])"
  by code_simp

text \<open>
  Claim C7, amended. A send_message on an authenticated socket whose senderId differs
  from the bound user id leaves the whole state unchanged (nothing persisted, the
  socket still connected) and emits one error event to the sender and nothing else:
  the forbidden error when the content is not blank, the empty-content error when it
  is.
\<close>

theorem send_message_spoofed_sender:
  assumes "userId i \<noteq> 0" and "senderId d \<noteq> userId i"
  shows "send_message e c (Some i) d s
           = (s, [(c, Error (if content d = [] \<or> trim (content d) = [] then Empty_content
                             else Forbidden))])"
  using assms by (auto simp: send_message_def)

theorem send_message_spoofed_sender_witness:
  "userId (identity_of an) \<noteq> 0 \<and> senderId spoofed_data \<noteq> userId (identity_of an)
   \<and> send_message env_ok ''C1'' (Some (identity_of an)) spoofed_data two_sessions
       = (two_sessions, [(''C1'', Error Forbidden)])"
proof -
  have h1: "userId (identity_of an) \<noteq> 0" by (simp add: identity_of_def an_def)
  have h2: "senderId spoofed_data \<noteq> userId (identity_of an)"
    by (simp add: identity_of_def an_def spoofed_data_def)
  have nb: "\<not> (content spoofed_data = [] \<or> trim (content spoofed_data) = [])"
    by (simp add: spoofed_data_def trim_def is_white_space_def)
  show ?thesis
    using h1 h2 nb send_message_spoofed_sender [OF h1 h2, of env_ok "''C1''" two_sessions]
    by simp
qed

lemma stranger_broadcast:
  "snd (send_message env_ok ''C1'' (Some (identity_of an)) stranger_data stranger_room)
     = [(''E1'', New_message stranger_message)]"
  by code_simp

text \<open>
  Claim C10. On an authenticated socket, a send_message with the socket's own user as
  sender and a content that is not blank, whose insert succeeds, appends the row for
  whatever receiver id the payload names, and a socket receives new_message exactly
  when it has joined the room of sender and receiver. The result does not depend on
  the users table nor on the friends table: neither is consulted. The ids and the
  counter are taken to be safe integers.
\<close>

theorem send_message_any_receiver:
  assumes "userId i \<noteq> 0" and "senderId d = userId i" and "trim (content d) \<noteq> []"
      and "\<not> db_err e"
      and "safe_integer (senderId d)" and "safe_integer (receiverId d)"
      and "safe_integer (messages_seq s + 1)"
  shows "messages (fst (send_message e c (Some i) d s))
           = messages s @ [\<lparr>m_id = messages_seq s + 1, m_sender_id = senderId d,
                             m_receiver_id = receiverId d,
                             m_content = utf8_text (trim (content d)),
                             m_timestamp = db_now e\<rparr>]
       \<and> ((r, ev) \<in> set (snd (send_message e c (Some i) d s))
            \<longleftrightarrow> ev = New_message \<lparr>w_id = messages_seq s + 1, w_senderId = senderId d,
                                   w_receiverId = receiverId d,
                                   w_content = trim (content d), w_timestamp = js_now e,
                                   w_senderName = userName i\<rparr>
              \<and> (roomId (senderId d) (receiverId d), r) \<in> set (rooms s))
       \<and> send_message e c (Some i) d (s\<lparr>users := us, friends := fr\<rparr>)
           = ((fst (send_message e c (Some i) d s))\<lparr>users := us, friends := fr\<rparr>,
              snd (send_message e c (Some i) d s))"
proof -
  have "content d \<noteq> []" using assms(3) by auto
  then show ?thesis
    using assms(1-4)
    by (force simp: send_message_def insert_message_def Let_def io_to_emit_def room_members_def)
qed

theorem send_message_any_receiver_witness:
  "userId (identity_of an) \<noteq> 0 \<and> senderId stranger_data = userId (identity_of an)
   \<and> trim (content stranger_data) \<noteq> [] \<and> \<not> db_err env_ok
   \<and> safe_integer (senderId stranger_data) \<and> safe_integer (receiverId stranger_data)
   \<and> safe_integer (messages_seq stranger_room + 1)
   \<and> findUserById stranger_room (receiverId stranger_data) = None
   \<and> (receiverId stranger_data, senderId stranger_data) \<notin> set (friends stranger_room)
   \<and> (senderId stranger_data, receiverId stranger_data) \<notin> set (friends stranger_room)
   \<and> messages (fst (send_message env_ok ''C1'' (Some (identity_of an)) stranger_data
                      stranger_room)) = [stranger_row]
   \<and> (''E1'', New_message stranger_message)
       \<in> set (snd (send_message env_ok ''C1'' (Some (identity_of an)) stranger_data
                      stranger_room))"
proof -
  have h1: "userId (identity_of an) \<noteq> 0" by (simp add: identity_of_def an_def)
  have h2: "senderId stranger_data = userId (identity_of an)"
    by (simp add: identity_of_def an_def stranger_data_def)
  have h3: "trim (content stranger_data) \<noteq> []"
    by (simp add: stranger_data_def trim_def is_white_space_def)
  have h4: "\<not> db_err env_ok" by (simp add: env_ok_def)
  have h5: "safe_integer (senderId stranger_data)" "safe_integer (receiverId stranger_data)"
    "safe_integer (messages_seq stranger_room + 1)"
    by (simp_all add: safe_integer_def stranger_data_def stranger_room_def)
  have nobody: "findUserById stranger_room (receiverId stranger_data) = None"
    by (simp add: findUserById_def stranger_room_def stranger_data_def an_def binh_def chi_def)
  have nofriend: "(receiverId stranger_data, senderId stranger_data) \<notin> set (friends stranger_room)"
    "(senderId stranger_data, receiverId stranger_data) \<notin> set (friends stranger_room)"
    by (simp_all add: stranger_room_def stranger_data_def)
  have t: "trim [0x68, 0x69] = [0x68, 0x69]"
    by (simp add: trim_def is_white_space_def)
  note inst = send_message_any_receiver [OF h1 h2 h3 h4 h5, of "''C1''" "''E1''"
      "New_message stranger_message" "[]" "[]"]
  have stored: "messages (fst (send_message env_ok ''C1'' (Some (identity_of an)) stranger_data
                      stranger_room)) = [stranger_row]"
    using inst [THEN conjunct1]
    by (simp add: t stranger_room_def stranger_row_def stranger_data_def env_ok_def
          is_high_surrogate_def is_low_surrogate_def)
  have joined: "(roomId (senderId stranger_data) (receiverId stranger_data), ''E1'')
                  \<in> set (rooms stranger_room)"
    by (simp add: stranger_room_def stranger_data_def)
  have msg: "stranger_message
      = \<lparr>w_id = messages_seq stranger_room + 1, w_senderId = senderId stranger_data,
         w_receiverId = receiverId stranger_data, w_content = trim (content stranger_data),
         w_timestamp = js_now env_ok, w_senderName = userName (identity_of an)\<rparr>"
    by (simp add: stranger_message_def stranger_room_def stranger_data_def env_ok_def
          identity_of_def an_def t)
  have delivered: "(''E1'', New_message stranger_message)
       \<in> set (snd (send_message env_ok ''C1'' (Some (identity_of an)) stranger_data
                      stranger_room))"
    using inst [THEN conjunct2, THEN conjunct1] joined msg by simp
  show ?thesis
    using h1 h2 h3 h4 h5 nobody nofriend stored delivered by blast
qed

section \<open>The roster of online users\<close>

lemma Map_set_keys:
  "map fst (Map_set kvs k v)
     = (if k \<in> fst ` set kvs then map fst kvs else map fst kvs @ [k])"
  by (induction kvs) (force split: if_splits)+

lemma Map_delete_keys: "map fst (Map_delete kvs k) = filter (\<lambda>x. x \<noteq> k) (map fst kvs)"
  by (simp add: Map_delete_def filter_map comp_def)

lemma map_of_Map_set: "map_of (Map_set kvs k v) = (map_of kvs)(k \<mapsto> v)"
  by (induction kvs) (auto simp: fun_eq_iff)

lemma map_of_Map_delete: "map_of (Map_delete kvs k) = (map_of kvs)(k := None)"
  unfolding Map_delete_def by (induction kvs) (auto simp: fun_eq_iff)


lemma registry_ok_alt:
  "registry_ok s \<longleftrightarrow>
     distinct (map fst (onlineUsers s)) \<and> distinct (map fst (sockets s))
     \<and> (\<forall>k x. map_of (onlineUsers s) k = Some x \<longrightarrow> o_socketId x = k)
     \<and> (\<forall>c i. map_of (sockets s) c = Some (Some i) \<longrightarrow>
           (\<exists>x. map_of (onlineUsers s) c = Some x \<and> o_userId x = userId i
                \<and> o_name x = userName i \<and> o_phone x = userPhone i))"
proof (cases "distinct (map fst (onlineUsers s)) \<and> distinct (map fst (sockets s))")
  case False
  then show ?thesis by (auto simp: registry_ok_def)
next
  case True
  then have d1: "distinct (map fst (onlineUsers s))" and d2: "distinct (map fst (sockets s))"
    by simp_all
  have a: "list_all (\<lambda>kx. o_socketId (snd kx) = fst kx) (onlineUsers s)
        \<longleftrightarrow> (\<forall>k x. map_of (onlineUsers s) k = Some x \<longrightarrow> o_socketId x = k)"
    using d1 by (auto simp: list_all_iff)
  have b: "list_all (\<lambda>ck. case snd ck of
                          None \<Rightarrow> True
                        | Some i \<Rightarrow>
                            (case map_of (onlineUsers s) (fst ck) of
                               None \<Rightarrow> False
                             | Some x \<Rightarrow> o_userId x = userId i \<and> o_name x = userName i
                                         \<and> o_phone x = userPhone i))
                 (sockets s)
        \<longleftrightarrow> (\<forall>c i. map_of (sockets s) c = Some (Some i) \<longrightarrow>
           (\<exists>x. map_of (onlineUsers s) c = Some x \<and> o_userId x = userId i
                \<and> o_name x = userName i \<and> o_phone x = userPhone i))"
    using d2 by (fastforce simp: list_all_iff split: option.splits)
  show ?thesis
    unfolding registry_ok_def a b using True by simp
qed

text \<open>Every step of the server keeps \<open>registry_ok\<close>, which holds when it starts.\<close>

lemma registry_ok_connection:
  assumes "registry_ok s"
  shows "registry_ok (fst (connection c tok s))"
  using assms unfolding registry_ok_alt
  by (auto simp: connection_def Map_set_keys map_of_Map_set)

lemma registry_ok_disconnect:
  assumes "registry_ok s"
  shows "registry_ok (fst (disconnect c s))"
  using assms unfolding registry_ok_alt
  by (auto simp: disconnect_def Let_def Map_delete_keys map_of_Map_delete)

lemma registry_ok_on_event:
  assumes "registry_ok s"
  shows "registry_ok (fst (on_event e c ev s))"
proof (cases "ev = Disconnect")
  case True
  then show ?thesis
    using registry_ok_disconnect[OF assms, of c] assms
    by (simp add: on_event_def split: option.splits)
next
  case False
  have same: "onlineUsers (fst (on_event e c ev s)) = onlineUsers s"
    "sockets (fst (on_event e c ev s)) = sockets s"
    using False
    by (auto simp: on_event_def authenticate_def join_conversation_def send_message_def
          typing_def socket_join_def insert_message_def Let_def
          split: option.splits in_event.splits if_splits)
  show ?thesis
    unfolding registry_ok_alt same using assms[unfolded registry_ok_alt] .
qed

lemma registry_ok_pending [simp]: "registry_ok (s\<lparr>pending := p\<rparr>) = registry_ok s"
  by (simp add: registry_ok_alt)

lemma map_of_Some_key: "map_of kvs k = Some v \<Longrightarrow> k \<in> fst ` set kvs"
  by (metis map_of_eq_None_iff option.distinct(1))

lemma registry_ok_resume:
  assumes "registry_ok s"
  shows "registry_ok (fst (authenticate_resume e c t s))"
  using assms unfolding registry_ok_alt
  by (auto simp del: map_of_eq_Some_iff
        simp: authenticate_resume_def Let_def Map_set_keys map_of_Map_set
        dest: map_of_Some_key split: option.splits if_splits)

lemma registry_ok_step:
  assumes "registry_ok s"
  shows "registry_ok (fst (server_step e st s))"
  using assms registry_ok_connection registry_ok_on_event
    registry_ok_resume[of "s\<lparr>pending := p\<rparr>" for p]
  by (auto simp: server_step_def split: step.splits)

lemma registry_ok_run:
  assumes "registry_ok s"
  shows "registry_ok (fst (run e sts s))"
  using assms
proof (induction sts arbitrary: s)
  case Nil
  then show ?case by simp
next
  case (Cons st sts)
  have "registry_ok (fst (server_step e st s))"
    using Cons.prems by (rule registry_ok_step)
  from Cons.IH[OF this] show ?case
    by (simp add: split_beta Let_def)
qed

lemma registry_ok_start:
  "registry_ok \<lparr>users = us, friends = fr, messages = ms, messages_seq = n, sockets = [],
                 rooms = [], onlineUsers = [], pending = []\<rparr>"
  by (simp add: registry_ok_def)





text \<open>
  An entry can outlive its socket: S3 sends authenticate, disconnects while the user
  lookup is under way, and the resumed handler then writes the entry of S3. The
  snapshot sent afterwards lists S3, which is no longer connected, and no later event
  removes the entry.
\<close>

lemma late_authentication_leaves_entry:
  "map fst (sockets (fst (run env_ok [Event ''S3'' (Authenticate (Some ''token-binh'')),
                                       Event ''S3'' Disconnect,
                                       Resume ''S3'' ''token-binh''] three_sockets)))
     = [''S1'', ''S2'']
   \<and> map snd (onlineUsers (fst (run env_ok [Event ''S3'' (Authenticate (Some ''token-binh'')),
                                       Event ''S3'' Disconnect,
                                       Resume ''S3'' ''token-binh''] three_sockets)))
     = roster3
   \<and> snd (run env_ok [Event ''S3'' (Authenticate (Some ''token-binh'')),
                      Event ''S3'' Disconnect,
                      Resume ''S3'' ''token-binh''] three_sockets)
     = [(''S1'', Users_online [entry_of binh ''S1'' 10, entry_of an ''S2'' 20]),
        (''S2'', Users_online [entry_of binh ''S1'' 10, entry_of an ''S2'' 20]),
        (''S1'', Users_online roster3), (''S2'', Users_online roster3)]"
  by code_simp







section \<open>Authenticating a socket that is already bound\<close>

lemma rebind_run:
  "map_of (sockets (fst (run env_ok [Event ''C1'' (Authenticate (Some ''token-binh'')),
                                      Resume ''C1'' ''token-binh''] two_sessions))) ''C1''
     = Some (Some (identity_of binh))
   \<and> hd (snd (run env_ok [Event ''C1'' (Authenticate (Some ''token-binh'')),
                          Resume ''C1'' ''token-binh''] two_sessions))
       = (''C1'', Auth_success binh)"
  by code_simp

lemma two_sessions_C1: "map_of (sockets two_sessions) ''C1'' = Some (Some (identity_of an))"
  by (simp add: two_sessions_def)

text \<open>
  The claim as stated fails: the socket C1 is bound to An, a second authenticate on it
  with Binh's token succeeds, and C1 is then bound to Binh.
\<close>

theorem authenticate_rebinds_counterexample:
  "map_of (sockets two_sessions) ''C1'' = Some (Some (identity_of an))
   \<and> map_of (sockets (fst (run env_ok [Event ''C1'' (Authenticate (Some ''token-binh'')),
                                        Resume ''C1'' ''token-binh''] two_sessions))) ''C1''
       = Some (Some (identity_of binh))
   \<and> hd (snd (run env_ok [Event ''C1'' (Authenticate (Some ''token-binh'')),
                          Resume ''C1'' ''token-binh''] two_sessions))
       = (''C1'', Auth_success binh)"
  using two_sessions_C1 rebind_run by simp

lemma authenticate_resume_success:
  assumes "c \<in> fst ` set (sockets s)" and "verifyToken e t = Some uid" and "\<not> db_err e"
      and "findUserById s uid = Some user"
  shows "authenticate_resume e c t s
           = (s\<lparr>sockets := Map_set (sockets s) c
                              (Some \<lparr>userId = u_id user, userName = u_name user,
                                     userPhone = u_phone user\<rparr>),
                 onlineUsers := Map_set (onlineUsers s) c
                                  \<lparr>o_userId = u_id user, o_name = u_name user,
                                   o_phone = u_phone user, o_socketId = c,
                                   o_connectedAt = js_now e\<rparr>\<rparr>,
              (c, Auth_success user)
              # map (\<lambda>d. (d, Users_online
                               (map snd (Map_set (onlineUsers s) c
                                  \<lparr>o_userId = u_id user, o_name = u_name user,
                                   o_phone = u_phone user, o_socketId = c,
                                   o_connectedAt = js_now e\<rparr>))))
                    (map fst (sockets s)))"
proof -
  let ?socks = "Map_set (sockets s) c
                  (Some \<lparr>userId = u_id user, userName = u_name user,
                         userPhone = u_phone user\<rparr>)"
  have keys: "map fst ?socks = map fst (sockets s)"
    using assms(1) by (simp add: Map_set_keys)
  then have still: "c \<in> fst ` set ?socks"
    using assms(1) by (metis list.set_map)
  have all: "map (\<lambda>sk. (fst sk, ev)) ?socks = map (\<lambda>d. (d, ev)) (map fst (sockets s))" for ev
    unfolding keys[symmetric] by (simp add: comp_def)
  show ?thesis
    using assms still
    by (simp add: authenticate_resume_def socket_emit_def io_emit_def Map_values_def Let_def
          all)
qed

text \<open>
  Claim C8, amended. An authenticate on a connected socket that already has a bound
  user is handled like a first one. A missing or empty token is answered at once with
  the token-missing auth_error and changes nothing; any other token suspends the
  handler. When it resumes: if the token does not verify or the user lookup fails,
  the socket gets the token-invalid auth_error, if the user of the token does not
  exist, the user-missing one, and in both cases the state, and with it the existing
  binding, is unchanged. If the token verifies and its user exists, the socket is
  bound to that user, its entry in the map of online users is replaced by the entry of
  that user, nothing else changes, and the events are auth_success to the socket
  followed by the new users_online snapshot to every connected socket.
\<close>

theorem authenticate_rebinds:
  assumes "map_of (sockets s) c = Some (Some i)"
  shows "on_event e c (Authenticate tok) s
           = (case tok of
                None \<Rightarrow> (s, [(c, Auth_error Token_missing)])
              | Some t \<Rightarrow> if t = [] then (s, [(c, Auth_error Token_missing)])
                          else (s\<lparr>pending := pending s @ [(c, t)]\<rparr>, []))
       \<and> (verifyToken e t = None \<or> db_err e \<longrightarrow>
            authenticate_resume e c t s = (s, [(c, Auth_error Token_invalid)]))
       \<and> (verifyToken e t = Some uid \<and> \<not> db_err e \<and> findUserById s uid = None \<longrightarrow>
            authenticate_resume e c t s = (s, [(c, Auth_error User_missing)]))
       \<and> (verifyToken e t = Some uid \<and> \<not> db_err e \<and> findUserById s uid = Some user \<longrightarrow>
            map_of (sockets (fst (authenticate_resume e c t s)))
              = (map_of (sockets s))
                  (c \<mapsto> Some \<lparr>userId = u_id user, userName = u_name user,
                               userPhone = u_phone user\<rparr>)
          \<and> map fst (sockets (fst (authenticate_resume e c t s))) = map fst (sockets s)
          \<and> map_of (onlineUsers (fst (authenticate_resume e c t s)))
              = (map_of (onlineUsers s))
                  (c \<mapsto> \<lparr>o_userId = u_id user, o_name = u_name user,
                          o_phone = u_phone user, o_socketId = c,
                          o_connectedAt = js_now e\<rparr>)
          \<and> (fst (authenticate_resume e c t s))
               \<lparr>sockets := sockets s, onlineUsers := onlineUsers s\<rparr> = s
          \<and> snd (authenticate_resume e c t s)
              = (c, Auth_success user)
                # map (\<lambda>d. (d, Users_online
                                 (map snd (onlineUsers (fst (authenticate_resume e c t s))))))
                      (map fst (sockets s)))"
proof -
  have conn: "c \<in> fst ` set (sockets s)"
    using assms by (rule map_of_Some_key)
  have first: "on_event e c (Authenticate tok) s
           = (case tok of
                None \<Rightarrow> (s, [(c, Auth_error Token_missing)])
              | Some t \<Rightarrow> if t = [] then (s, [(c, Auth_error Token_missing)])
                          else (s\<lparr>pending := pending s @ [(c, t)]\<rparr>, []))"
    using assms by (simp add: on_event_def authenticate_def)
  have invalid: "verifyToken e t = None \<or> db_err e \<longrightarrow>
            authenticate_resume e c t s = (s, [(c, Auth_error Token_invalid)])"
    using conn by (auto simp: authenticate_resume_def socket_emit_def split: option.splits)
  have missing: "verifyToken e t = Some uid \<and> \<not> db_err e \<and> findUserById s uid = None \<longrightarrow>
            authenticate_resume e c t s = (s, [(c, Auth_error User_missing)])"
    using conn by (auto simp: authenticate_resume_def socket_emit_def)
  have success: "verifyToken e t = Some uid \<and> \<not> db_err e \<and> findUserById s uid = Some user \<longrightarrow>
            map_of (sockets (fst (authenticate_resume e c t s)))
              = (map_of (sockets s))
                  (c \<mapsto> Some \<lparr>userId = u_id user, userName = u_name user,
                               userPhone = u_phone user\<rparr>)
          \<and> map fst (sockets (fst (authenticate_resume e c t s))) = map fst (sockets s)
          \<and> map_of (onlineUsers (fst (authenticate_resume e c t s)))
              = (map_of (onlineUsers s))
                  (c \<mapsto> \<lparr>o_userId = u_id user, o_name = u_name user,
                          o_phone = u_phone user, o_socketId = c,
                          o_connectedAt = js_now e\<rparr>)
          \<and> (fst (authenticate_resume e c t s))
               \<lparr>sockets := sockets s, onlineUsers := onlineUsers s\<rparr> = s
          \<and> snd (authenticate_resume e c t s)
              = (c, Auth_success user)
                # map (\<lambda>d. (d, Users_online
                                 (map snd (onlineUsers (fst (authenticate_resume e c t s))))))
                      (map fst (sockets s))"
    using conn
    by (auto simp: authenticate_resume_success[OF conn] map_of_Map_set Map_set_keys)
  show ?thesis
    using first invalid missing success by blast
qed

theorem authenticate_rebinds_witness:
  "map_of (sockets two_sessions) ''C1'' = Some (Some (identity_of an))
   \<and> verifyToken env_ok ''token-binh'' = Some 2 \<and> \<not> db_err env_ok
   \<and> findUserById two_sessions 2 = Some binh
   \<and> verifyToken env_ok ''no-token'' = None
   \<and> on_event env_ok ''C1'' (Authenticate (Some ''token-binh'')) two_sessions
       = (two_sessions\<lparr>pending := [(''C1'', ''token-binh'')]\<rparr>, [])
   \<and> map_of (sockets (fst (authenticate_resume env_ok ''C1'' ''token-binh'' two_sessions)))
        ''C1'' = Some (Some (identity_of binh))
   \<and> hd (snd (authenticate_resume env_ok ''C1'' ''token-binh'' two_sessions))
       = (''C1'', Auth_success binh)
   \<and> authenticate_resume env_ok ''C1'' ''no-token'' two_sessions
       = (two_sessions, [(''C1'', Auth_error Token_invalid)])"
proof -
  have v: "verifyToken env_ok ''token-binh'' = Some 2" "\<not> db_err env_ok"
    "verifyToken env_ok ''no-token'' = None"
    by (simp_all add: env_ok_def)
  have f: "findUserById two_sessions 2 = Some binh"
    by (simp add: findUserById_def two_sessions_def an_def binh_def)
  have p: "pending two_sessions = []" by (simp add: two_sessions_def)
  note good = authenticate_rebinds [OF two_sessions_C1,
      of env_ok "Some ''token-binh''" "''token-binh''" 2 binh]
  note bad = authenticate_rebinds [OF two_sessions_C1,
      of env_ok "Some ''token-binh''" "''no-token''" 2 binh]
  have first: "on_event env_ok ''C1'' (Authenticate (Some ''token-binh'')) two_sessions
       = (two_sessions\<lparr>pending := [(''C1'', ''token-binh'')]\<rparr>, [])"
    using good [THEN conjunct1] by (simp add: p)
  have rebound: "map_of (sockets (fst (authenticate_resume env_ok ''C1'' ''token-binh''
                                         two_sessions))) ''C1''
                   = Some (Some (identity_of binh))"
    and succ: "hd (snd (authenticate_resume env_ok ''C1'' ''token-binh'' two_sessions))
       = (''C1'', Auth_success binh)"
    using good [THEN conjunct2, THEN conjunct2, THEN conjunct2] v f
    by (simp_all add: identity_of_def)
  have rejected: "authenticate_resume env_ok ''C1'' ''no-token'' two_sessions
       = (two_sessions, [(''C1'', Auth_error Token_invalid)])"
    using bad [THEN conjunct2, THEN conjunct1] v by simp
  show ?thesis
    using two_sessions_C1 v f first rebound succ rejected by simp
qed

section \<open>Joining the conversation of any pair\<close>

lemma conversation_rows_sound:
  assumes "r \<in> set (conversation_rows s a b)"
  shows "fst r \<in> set (messages s) \<and> between a b (fst r)
       \<and> (\<exists>x\<in>set (users s). u_id x = m_sender_id (fst r) \<and> snd r = u_name x)"
  using assms by (auto simp: conversation_rows_def)

lemma conversation_rows_complete:
  assumes "m \<in> set (messages s)" and "between a b m" and "x \<in> set (users s)"
      and "u_id x = m_sender_id m"
  shows "(m, u_name x) \<in> set (conversation_rows s a b)"
  using assms by (force simp: conversation_rows_def)

lemma at_most_one_match:
  "distinct (map g xs) \<Longrightarrow> length (filter (\<lambda>x. k = g x) xs) \<le> Suc 0"
proof (induction xs)
  case Nil
  then show ?case by simp
next
  case (Cons x xs)
  have "k = g x \<Longrightarrow> filter (\<lambda>y. k = g y) xs = []"
    using Cons.prems by (auto simp: filter_empty_conv)
  then show ?case using Cons by auto
qed

lemma length_concat_le:
  "(\<And>m. m \<in> set ms \<Longrightarrow> length (f m) \<le> Suc 0) \<Longrightarrow> length (concat (map f ms)) \<le> length ms"
proof (induction ms)
  case Nil
  then show ?case by simp
next
  case (Cons a ms)
  have "length (f a) \<le> Suc 0" using Cons.prems[of a] by simp
  moreover have "length (concat (map f ms)) \<le> length ms"
    using Cons.IH Cons.prems by simp
  ultimately show ?case by simp
qed

lemma conversation_rows_length:
  assumes "distinct (map u_id (users s))"
  shows "length (conversation_rows s a b) \<le> length (filter (between a b) (messages s))"
  unfolding conversation_rows_def
  by (rule length_concat_le) (simp add: at_most_one_match[OF assms])

lemma history_query_sound: "set (history_query s a b) \<subseteq> set (conversation_rows s a b)"
  unfolding history_query_def using set_take_subset[of 50] by fastforce

lemma history_query_all:
  assumes "distinct (map u_id (users s))"
      and "length (filter (between a b) (messages s)) \<le> 50"
  shows "set (history_query s a b) = set (conversation_rows s a b)"
proof -
  have "length (conversation_rows s a b) \<le> 50"
    using conversation_rows_length[OF assms(1), of a b] assms(2) by simp
  then show ?thesis by (simp add: history_query_def)
qed

lemma mixed_join:
  "snd (join_conversation env_ok ''E1'' (Some (identity_of chi)) 1 2 mixed_store)
     = [(''E1'', Message_history mixed_reply)]"
  by code_simp

lemma mixed_store_ok: "list_all stored_row_ok (messages mixed_store)"
  by code_simp

text \<open>
  Claim C9. On an authenticated socket bound to any user \<open>w\<close>, join_conversation for
  any pair \<open>(u, f)\<close> puts the socket into the room of the pair and, when the history
  query succeeds, sends it the history of that pair: every message of the reply is a
  row of the messages table sent by one of the two to the other, with the name of its
  sender, and when the pair has at most 50 messages every such row is in the reply.
  The friends table plays no part, and neither does the bound user: any other
  authenticated identity on the socket gives the same result. The ids of the pair and
  of the stored rows are taken to be safe integers.
\<close>

theorem join_conversation_any_pair:
  assumes "userId w \<noteq> 0" and "safe_integer u" and "safe_integer f"
      and "list_all stored_row_ok (messages s)"
  shows "(roomId u f, c) \<in> set (rooms (fst (join_conversation e c (Some w) u f s)))
       \<and> (\<not> db_err e \<longrightarrow>
            (\<exists>H. snd (join_conversation e c (Some w) u f s) = [(c, Message_history H)]
               \<and> (\<forall>h\<in>set H. \<exists>r\<in>set (messages s). \<exists>x\<in>set (users s).
                     u_id x = m_sender_id r
                   \<and> (m_sender_id r = u \<and> m_receiver_id r = f
                      \<or> m_sender_id r = f \<and> m_receiver_id r = u)
                   \<and> h = \<lparr>w_id = m_id r, w_senderId = m_sender_id r,
                           w_receiverId = m_receiver_id r, w_content = m_content r,
                           w_timestamp = m_timestamp r, w_senderName = u_name x\<rparr>)
               \<and> (distinct (map u_id (users s))
                    \<and> length (filter (\<lambda>r. m_sender_id r = u \<and> m_receiver_id r = f
                                          \<or> m_sender_id r = f \<and> m_receiver_id r = u)
                                (messages s)) \<le> 50
                  \<longrightarrow> (\<forall>r\<in>set (messages s). \<forall>x\<in>set (users s).
                         u_id x = m_sender_id r
                       \<and> (m_sender_id r = u \<and> m_receiver_id r = f
                          \<or> m_sender_id r = f \<and> m_receiver_id r = u)
                       \<longrightarrow> \<lparr>w_id = m_id r, w_senderId = m_sender_id r,
                              w_receiverId = m_receiver_id r, w_content = m_content r,
                              w_timestamp = m_timestamp r, w_senderName = u_name x\<rparr>
                             \<in> set H))))
       \<and> join_conversation e c (Some w) u f (s\<lparr>friends := fr\<rparr>)
           = ((fst (join_conversation e c (Some w) u f s))\<lparr>friends := fr\<rparr>,
              snd (join_conversation e c (Some w) u f s))
       \<and> (userId w' \<noteq> 0 \<longrightarrow>
            join_conversation e c (Some w') u f s = join_conversation e c (Some w) u f s)"
proof -
  define H where "H = map format_message (history_query s u f)"
  have btw: "between u f = (\<lambda>r. m_sender_id r = u \<and> m_receiver_id r = f
                                \<or> m_sender_id r = f \<and> m_receiver_id r = u)"
    by (auto simp: between_def fun_eq_iff)
  have room: "(roomId u f, c) \<in> set (rooms (fst (join_conversation e c (Some w) u f s)))"
    using assms(1) by (auto simp: join_conversation_def Let_def socket_join_def)
  have reply: "\<not> db_err e \<Longrightarrow>
      snd (join_conversation e c (Some w) u f s) = [(c, Message_history H)]"
    using assms(1) by (simp add: join_conversation_def Let_def H_def)
  have sound: "\<exists>r\<in>set (messages s). \<exists>x\<in>set (users s).
                     u_id x = m_sender_id r
                   \<and> (m_sender_id r = u \<and> m_receiver_id r = f
                      \<or> m_sender_id r = f \<and> m_receiver_id r = u)
                   \<and> h = \<lparr>w_id = m_id r, w_senderId = m_sender_id r,
                           w_receiverId = m_receiver_id r, w_content = m_content r,
                           w_timestamp = m_timestamp r, w_senderName = u_name x\<rparr>"
    if "h \<in> set H" for h
  proof -
    from that obtain q where q: "q \<in> set (history_query s u f)" "h = format_message q"
      unfolding H_def by auto
    then have "q \<in> set (conversation_rows s u f)" using history_query_sound by blast
    from conversation_rows_sound[OF this] obtain x where
      "fst q \<in> set (messages s)" "between u f (fst q)" "x \<in> set (users s)"
      "u_id x = m_sender_id (fst q)" "snd q = u_name x" by blast
    then show ?thesis
      using q(2) unfolding btw by (intro bexI[of _ "fst q"] bexI[of _ x])
        (simp_all add: format_message_def)
  qed
  have complete: "\<lparr>w_id = m_id r, w_senderId = m_sender_id r,
                              w_receiverId = m_receiver_id r, w_content = m_content r,
                              w_timestamp = m_timestamp r, w_senderName = u_name x\<rparr>
                             \<in> set H"
    if "distinct (map u_id (users s))"
      and "length (filter (\<lambda>r. m_sender_id r = u \<and> m_receiver_id r = f
                               \<or> m_sender_id r = f \<and> m_receiver_id r = u)
                     (messages s)) \<le> 50"
      and "r \<in> set (messages s)" and "x \<in> set (users s)" and "u_id x = m_sender_id r"
      and "m_sender_id r = u \<and> m_receiver_id r = f \<or> m_sender_id r = f \<and> m_receiver_id r = u"
    for r x
  proof -
    have "(r, u_name x) \<in> set (conversation_rows s u f)"
      using that(3-6) by (intro conversation_rows_complete) (simp_all add: btw)
    then have "(r, u_name x) \<in> set (history_query s u f)"
      using history_query_all[OF that(1), of u f] that(2) unfolding btw by simp
    then have "format_message (r, u_name x) \<in> set H" unfolding H_def by simp
    then show ?thesis by (simp add: format_message_def)
  qed
  have fr: "join_conversation e c (Some w) u f (s\<lparr>friends := fr\<rparr>)
           = ((fst (join_conversation e c (Some w) u f s))\<lparr>friends := fr\<rparr>,
              snd (join_conversation e c (Some w) u f s))"
    using assms(1)
    by (auto simp: join_conversation_def Let_def socket_join_def history_query_def
          conversation_rows_def)
  have other: "userId w' \<noteq> 0 \<longrightarrow>
            join_conversation e c (Some w') u f s = join_conversation e c (Some w) u f s"
    using assms(1) by (auto simp: join_conversation_def)
  show ?thesis
    using room reply sound complete fr other by blast
qed

theorem join_conversation_any_pair_witness:
  "userId (identity_of chi) \<noteq> 0 \<and> safe_integer 1 \<and> safe_integer 2
   \<and> list_all stored_row_ok (messages mixed_store)
   \<and> userId (identity_of chi) \<noteq> 1 \<and> userId (identity_of chi) \<noteq> 2
   \<and> \<not> db_err env_ok \<and> userId (identity_of an) \<noteq> 0
   \<and> (roomId 1 2, ''E1'')
       \<in> set (rooms (fst (join_conversation env_ok ''E1'' (Some (identity_of chi)) 1 2
                             mixed_store)))
   \<and> snd (join_conversation env_ok ''E1'' (Some (identity_of chi)) 1 2 mixed_store)
       = [(''E1'', Message_history mixed_reply)]
   \<and> join_conversation env_ok ''E1'' (Some (identity_of an)) 1 2 mixed_store
       = join_conversation env_ok ''E1'' (Some (identity_of chi)) 1 2 mixed_store"
proof -
  have h: "userId (identity_of chi) \<noteq> 0" by (simp add: identity_of_def chi_def)
  have s1: "safe_integer 1" and s2: "safe_integer 2" by (simp_all add: safe_integer_def)
  have o: "userId (identity_of chi) \<noteq> 1" "userId (identity_of chi) \<noteq> 2"
    by (simp_all add: identity_of_def chi_def)
  have e: "\<not> db_err env_ok" by (simp add: env_ok_def)
  have a: "userId (identity_of an) \<noteq> 0" by (simp add: identity_of_def an_def)
  note inst = join_conversation_any_pair [OF h s1 s2 mixed_store_ok,
      of "''E1''" env_ok "[]" "identity_of an"]
  have room: "(roomId 1 2, ''E1'')
       \<in> set (rooms (fst (join_conversation env_ok ''E1'' (Some (identity_of chi)) 1 2
                             mixed_store)))"
    using inst [THEN conjunct1] .
  have same: "join_conversation env_ok ''E1'' (Some (identity_of an)) 1 2 mixed_store
       = join_conversation env_ok ''E1'' (Some (identity_of chi)) 1 2 mixed_store"
    using inst [THEN conjunct2, THEN conjunct2, THEN conjunct2] a by simp
  show ?thesis
    using h s1 s2 mixed_store_ok o e a room mixed_join same by simp
qed

end
